theory Spec2Isabelle
  imports Main "HOL-Library.Char_ord" "HOL-Library.List_Lexorder"
begin

section \<open>Vectors and matrices\<close>

text \<open>
  \<^verbatim>\<open>ezdxf.math.Vector\<close> is used by \<^verbatim>\<open>entities/point.py\<close> as a value with three
  coordinates. The coordinate type is left open (\<open>'a\<close>): the theorems below hold for
  every number type that has the operations they mention.
\<close>

datatype 'a Vector = Vector (vx: 'a) (vy: 'a) (vz: 'a)

text \<open>
  Modelled from the spec: the class \<^verbatim>\<open>Vector\<close> is not among the sources; its \<^verbatim>\<open>+\<close>
  shifts a position by an offset (section 4.5), which is the sum of the coordinates
  one by one.
\<close>

definition Vector_add :: "'a::plus Vector \<Rightarrow> 'a Vector \<Rightarrow> 'a Vector" where
  "Vector_add a b = Vector (vx a + vx b) (vy a + vy b) (vz a + vz b)"

text \<open>
  Modelled from the spec: the class \<^verbatim>\<open>Matrix44\<close> is not among the sources. A matrix is
  represented by what it computes: \<open>transform m v\<close> is \<^verbatim>\<open>m.transform(v)\<close>, the full affine
  map of a position, and \<open>linear_part m (t, e)\<close> is the thickness and the extrusion
  that the linear part of \<open>m\<close> makes of the thickness \<open>t\<close> and the extrusion \<open>e\<close>
  (section 4.5); \<open>None\<close> stands for an attribute that is not set.
\<close>

record 'a Matrix44 =
  transform :: "'a Vector \<Rightarrow> 'a Vector"
  linear_part :: "'a option \<times> 'a Vector option \<Rightarrow> 'a option \<times> 'a Vector option"

section \<open>The attributes of a POINT entity\<close>

text \<open>
  The namespace \<^verbatim>\<open>self.dxf\<close> of a POINT, restricted to the four attributes that
  \<^verbatim>\<open>acdb_point\<close> declares (point.py, lines 18-25). An attribute that was never
  set is \<open>None\<close>.
\<close>

record 'a DXFNamespace =
  location :: "'a Vector option"
  thickness :: "'a option"
  extrusion :: "'a Vector option"
  angle :: "'a option"

text \<open>
  Reading an attribute that is not set gives the default of its descriptor:
  \<^verbatim>\<open>DXFAttr(10, xtype=XType.point3d, default=Vector(0, 0, 0))\<close> for the location.
\<close>

definition dxf_location :: "'a::zero DXFNamespace \<Rightarrow> 'a Vector" where
  "dxf_location ns = (case location ns of Some v \<Rightarrow> v | None \<Rightarrow> Vector 0 0 0)"

text \<open>
  An entity object, and the store of the objects: a method receives the reference
  \<open>self\<close>, changes the object the store holds for it, and returns a reference.
\<close>

record 'a Point =
  dxf :: "'a DXFNamespace"

type_synonym ref = nat

type_synonym 'a heap = "ref \<Rightarrow> 'a Point option"

section \<open>Point.transform and Point.translate\<close>

text \<open>
  Modelled from the spec: \<^verbatim>\<open>transform_thickness_and_extrusion_without_ocs\<close>
  (\<^verbatim>\<open>ezdxf.math.transformtools\<close>) is not among the sources. Section 4.5 describes it as
  the shared helper that maps the thickness and the extrusion through the linear part
  of the transform; it writes these two attributes of the entity and nothing else.
\<close>

definition transform_thickness_and_extrusion_without_ocs ::
    "ref \<Rightarrow> 'a Matrix44 \<Rightarrow> 'a heap \<Rightarrow> 'a heap" where
  "transform_thickness_and_extrusion_without_ocs entity m h =
     (case h entity of
        None \<Rightarrow> h
      | Some p \<Rightarrow>
          let te = linear_part m (thickness (dxf p), extrusion (dxf p))
          in h(entity \<mapsto> p\<lparr>dxf := (dxf p)\<lparr>thickness := fst te, extrusion := snd te\<rparr>\<rparr>))"

text \<open>
  \<^verbatim>\<open>Point.transform\<close> (point.py, lines 53-62):
  \<^verbatim>\<open>
    self.dxf.location = m.transform(self.dxf.location)
    transform_thickness_and_extrusion_without_ocs(self, m)
    # ignore dxf.angle!
    return self
  \<close>
  The result is the returned reference and the store after the call; \<open>None\<close> only for
  a reference that names no object, which a method call never receives.
\<close>

definition Point_transform :: "ref \<Rightarrow> 'a::zero Matrix44 \<Rightarrow> 'a heap \<Rightarrow> (ref \<times> 'a heap) option" where
  "Point_transform self m h =
     (case h self of
        None \<Rightarrow> None
      | Some p \<Rightarrow>
          let h1 = h(self \<mapsto> p\<lparr>dxf := (dxf p)\<lparr>location := Some (transform m (dxf_location (dxf p)))\<rparr>\<rparr>);
              h2 = transform_thickness_and_extrusion_without_ocs self m h1
          in Some (self, h2))"

text \<open>
  \<^verbatim>\<open>Point.translate\<close> (point.py, lines 64-72):
  \<^verbatim>\<open>
    self.dxf.location = Vector(dx, dy, dz) + self.dxf.location
    return self
  \<close>
\<close>

definition Point_translate :: "'a \<Rightarrow> 'a \<Rightarrow> 'a \<Rightarrow> ref \<Rightarrow> 'a::{zero,plus} heap \<Rightarrow> (ref \<times> 'a heap) option" where
  "Point_translate dx dy dz self h =
     (case h self of
        None \<Rightarrow> None
      | Some p \<Rightarrow>
          Some (self,
            h(self \<mapsto> p\<lparr>dxf := (dxf p)\<lparr>location :=
                Some (Vector_add (Vector dx dy dz) (dxf_location (dxf p)))\<rparr>\<rparr>)))"

section \<open>Tags and the schema of a POINT\<close>

text \<open>
  A tag is a group code with a value (spec, section 3); a point or a vector is one
  composite value.
\<close>

datatype 'a DXFValue = StrV string | IntV int | DblV 'a | VecV "'a Vector"

type_synonym 'a DXFTag = "int \<times> 'a DXFValue"

datatype DXFError = MalformedTag | InvalidAttributeShape | UnknownEntityType | InvalidValue

datatype XType = scalar | point3d

record 'a DXFAttr =
  attr_code :: int
  attr_xtype :: XType
  attr_default :: "'a DXFValue"
  attr_optional :: bool

record 'a DefSubclass =
  subclass_name :: string
  subclass_attribs :: "(string \<times> 'a DXFAttr) list"

text \<open>
  \<^verbatim>\<open>acdb_point\<close> (point.py, lines 18-25):
  \<^verbatim>\<open>
    acdb_point = DefSubclass('AcDbPoint', {
        'location': DXFAttr(10, xtype=XType.point3d, default=Vector(0, 0, 0)),
        'thickness': DXFAttr(39, default=0, optional=True),
        'extrusion': DXFAttr(210, xtype=XType.point3d, default=Vector(0, 0, 1), optional=True),
        'angle': DXFAttr(50, default=0, optional=True),
    })
  \<close>
\<close>

definition acdb_point :: "'a::{zero,one} DefSubclass" where
  "acdb_point =
     \<lparr>subclass_name = ''AcDbPoint'',
      subclass_attribs =
        [(''location'',
            \<lparr>attr_code = 10, attr_xtype = point3d, attr_default = VecV (Vector 0 0 0),
             attr_optional = False\<rparr>),
         (''thickness'',
            \<lparr>attr_code = 39, attr_xtype = scalar, attr_default = DblV 0,
             attr_optional = True\<rparr>),
         (''extrusion'',
            \<lparr>attr_code = 210, attr_xtype = point3d, attr_default = VecV (Vector 0 0 1),
             attr_optional = True\<rparr>),
         (''angle'',
            \<lparr>attr_code = 50, attr_xtype = scalar, attr_default = DblV 0,
             attr_optional = True\<rparr>)]\<rparr>"

text \<open>
  The namespace read and written by the name of an attribute, as the loader and the
  exporter do. Writing a value of the wrong shape is refused (\<open>None\<close>): a point
  attribute takes a vector, a scalar attribute a number.
\<close>

definition get_attrib :: "'a DXFNamespace \<Rightarrow> string \<Rightarrow> 'a DXFValue option" where
  "get_attrib ns key =
     (if key = ''location'' then map_option VecV (location ns)
      else if key = ''thickness'' then map_option DblV (thickness ns)
      else if key = ''extrusion'' then map_option VecV (extrusion ns)
      else if key = ''angle'' then map_option DblV (angle ns)
      else None)"

definition set_attrib :: "'a DXFNamespace \<Rightarrow> string \<Rightarrow> 'a DXFValue \<Rightarrow> 'a DXFNamespace option" where
  "set_attrib ns key v =
     (if key = ''location'' then
        (case v of VecV p \<Rightarrow> Some (ns\<lparr>location := Some p\<rparr>) | _ \<Rightarrow> None)
      else if key = ''thickness'' then
        (case v of DblV d \<Rightarrow> Some (ns\<lparr>thickness := Some d\<rparr>) | _ \<Rightarrow> None)
      else if key = ''extrusion'' then
        (case v of VecV p \<Rightarrow> Some (ns\<lparr>extrusion := Some p\<rparr>) | _ \<Rightarrow> None)
      else if key = ''angle'' then
        (case v of DblV d \<Rightarrow> Some (ns\<lparr>angle := Some d\<rparr>) | _ \<Rightarrow> None)
      else None)"

section \<open>Loading a POINT\<close>

text \<open>
  Modelled from the spec: the class \<^verbatim>\<open>SubclassProcessor\<close> is not among the sources.
  It holds the sub-records of one entity as the grouper made them (section 4.2), the
  base sub-record first, and the flag \<^verbatim>\<open>r12\<close> of the legacy revision. A sub-record of a
  later revision starts with its marker tag; under the legacy revision there is no
  marker and the whole tag sequence is the one base sub-record, which every schema
  layer reads.
\<close>

record 'a SubclassProcessor =
  subclasses :: "'a DXFTag list list"
  r12 :: bool

definition SUBCLASS_MARKER :: int where
  "SUBCLASS_MARKER = 100"

definition find_subclass :: "'a SubclassProcessor \<Rightarrow> string \<Rightarrow> 'a DXFTag list" where
  "find_subclass pr nm =
     (if r12 pr then (case subclasses pr of [] \<Rightarrow> [] | s # _ \<Rightarrow> s)
      else (case filter (\<lambda>s. s \<noteq> [] \<and> hd s = (SUBCLASS_MARKER, StrV nm)) (subclasses pr) of
              [] \<Rightarrow> []
            | s # _ \<Rightarrow> tl s))"

text \<open>
  Modelled from the spec: \<^verbatim>\<open>load_dxfattribs_into_namespace\<close> is not among the sources.
  Section 4.3: for each descriptor of the schema the sub-record is searched for the
  descriptor's group code in encounter order and the first match wins; an absent
  attribute stays unset; a value of the wrong shape fails with InvalidAttributeShape;
  the tags that no descriptor consumed are the residue, which the call returns.
\<close>

fun load_descriptors ::
    "(string \<times> 'a DXFAttr) list \<Rightarrow> 'a DXFTag list \<Rightarrow> 'a DXFNamespace \<Rightarrow> DXFError + 'a DXFNamespace" where
  "load_descriptors [] tags ns = Inr ns"
| "load_descriptors ((key, a) # ds) tags ns =
     (case find (\<lambda>t. fst t = attr_code a) tags of
        None \<Rightarrow> load_descriptors ds tags ns
      | Some t \<Rightarrow>
          (case set_attrib ns key (snd t) of
             None \<Rightarrow> Inl InvalidAttributeShape
           | Some ns' \<Rightarrow> load_descriptors ds tags ns'))"

fun remove_first_code :: "int \<Rightarrow> 'a DXFTag list \<Rightarrow> 'a DXFTag list" where
  "remove_first_code c [] = []"
| "remove_first_code c (t # ts) = (if fst t = c then ts else t # remove_first_code c ts)"

definition unconsumed :: "(string \<times> 'a DXFAttr) list \<Rightarrow> 'a DXFTag list \<Rightarrow> 'a DXFTag list" where
  "unconsumed ds tags = fold remove_first_code (map (\<lambda>d. attr_code (snd d)) ds) tags"

definition load_dxfattribs_into_namespace ::
    "'a SubclassProcessor \<Rightarrow> 'a DXFNamespace \<Rightarrow> 'a DefSubclass \<Rightarrow>
      DXFError + ('a DXFNamespace \<times> 'a DXFTag list)" where
  "load_dxfattribs_into_namespace pr ns sc =
     (let tags = find_subclass pr (subclass_name sc)
      in case load_descriptors (subclass_attribs sc) tags ns of
           Inl e \<Rightarrow> Inl e
         | Inr ns' \<Rightarrow> Inr (ns', unconsumed (subclass_attribs sc) tags))"

text \<open>
  Modelled from the spec: \<^verbatim>\<open>log_unprocessed_tags\<close> is not among the sources. A notice
  is the residue of one sub-record with the name of the sub-record (section 6, the
  diagnostic surface); the notices given so far are a list.
\<close>

type_synonym 'a notices = "(string \<times> 'a DXFTag list) list"

definition log_unprocessed_tags :: "'a DXFTag list \<Rightarrow> string \<Rightarrow> 'a notices \<Rightarrow> 'a notices" where
  "log_unprocessed_tags tags subclass log = log @ [(subclass, tags)]"

text \<open>
  \<^verbatim>\<open>Point.load_dxf_attribs\<close> (point.py, lines 34-41):
  \<^verbatim>\<open>
    dxf = super().load_dxf_attribs(processor)
    if processor:
        tags = processor.load_dxfattribs_into_namespace(dxf, acdb_point)
        if len(tags) and not processor.r12:
            processor.log_unprocessed_tags(tags, subclass=acdb_point.name)
    return dxf
  \<close>
  The loading method of the parent class \<^verbatim>\<open>DXFGraphic\<close> is not among the sources and is
  a parameter: it gives the namespace it made and the notices after it, or fails.
\<close>

definition Point_load_dxf_attribs ::
    "('a SubclassProcessor option \<Rightarrow> 'a notices \<Rightarrow> DXFError + ('a DXFNamespace \<times> 'a notices)) \<Rightarrow>
      'a::{zero,one} SubclassProcessor option \<Rightarrow> 'a notices \<Rightarrow>
      DXFError + ('a DXFNamespace \<times> 'a notices)" where
  "Point_load_dxf_attribs super_load_dxf_attribs processor log =
     (case super_load_dxf_attribs processor log of
        Inl e \<Rightarrow> Inl e
      | Inr (dxf0, log0) \<Rightarrow>
          (case processor of
             None \<Rightarrow> Inr (dxf0, log0)
           | Some pr \<Rightarrow>
               (case load_dxfattribs_into_namespace pr dxf0 acdb_point of
                  Inl e \<Rightarrow> Inl e
                | Inr (dxf1, tags) \<Rightarrow>
                    Inr (dxf1,
                      if length tags \<noteq> 0 \<and> \<not> r12 pr
                      then log_unprocessed_tags tags (subclass_name (acdb_point :: 'a DefSubclass)) log0
                      else log0))))"

section \<open>Exporting a POINT\<close>

text \<open>
  Modelled from the spec: the class \<^verbatim>\<open>TagWriter\<close> is not among the sources. It carries
  the revision it writes for and the tags written so far; \<^verbatim>\<open>write_tag2\<close> writes one tag.
\<close>

record 'a TagWriter =
  dxfversion :: string
  written :: "'a DXFTag list"

definition write_tag2 :: "int \<Rightarrow> 'a DXFValue \<Rightarrow> 'a TagWriter \<Rightarrow> 'a TagWriter" where
  "write_tag2 c v tagwriter = tagwriter\<lparr>written := written tagwriter @ [(c, v)]\<rparr>"

text \<open>
  The constant \<^verbatim>\<open>DXF12\<close> of \<^verbatim>\<open>ezdxf.lldxf.const\<close> is not among the sources; the legacy
  revision is named \<^verbatim>\<open>ac1009\<close> in \<^verbatim>\<open>modern/__init__.py\<close> (line 89). Revisions are
  strings, compared as Python compares strings.
\<close>

definition DXF12 :: string where
  "DXF12 = ''AC1009''"

text \<open>
  Modelled from the spec: \<^verbatim>\<open>export_dxf_attribs\<close> is not among the sources. Section 4.3:
  the attributes are written in the order given; an attribute is written only if it
  is required or is set, and an optional attribute that is not set is left out.
  A required attribute that is not set is written with its default.
\<close>

fun export_dxf_attribs ::
    "'a DefSubclass \<Rightarrow> 'a DXFNamespace \<Rightarrow> 'a TagWriter \<Rightarrow> string list \<Rightarrow> 'a TagWriter" where
  "export_dxf_attribs sc ns tagwriter [] = tagwriter"
| "export_dxf_attribs sc ns tagwriter (key # keys) =
     (case map_of (subclass_attribs sc) key of
        None \<Rightarrow> export_dxf_attribs sc ns tagwriter keys
      | Some a \<Rightarrow>
          (case get_attrib ns key of
             Some v \<Rightarrow> export_dxf_attribs sc ns (write_tag2 (attr_code a) v tagwriter) keys
           | None \<Rightarrow>
               if attr_optional a then export_dxf_attribs sc ns tagwriter keys
               else export_dxf_attribs sc ns (write_tag2 (attr_code a) (attr_default a) tagwriter) keys))"

text \<open>
  \<^verbatim>\<open>Point.export_entity\<close> (point.py, lines 43-51):
  \<^verbatim>\<open>
    super().export_entity(tagwriter)
    if tagwriter.dxfversion > DXF12:
        tagwriter.write_tag2(SUBCLASS_MARKER, acdb_point.name)
    self.dxf.export_dxf_attribs(tagwriter, ['location', 'thickness', 'extrusion', 'angle'])
  \<close>
  The export of the parent class is not among the sources and is a parameter.
\<close>

definition Point_export_entity ::
    "('a Point \<Rightarrow> 'a TagWriter \<Rightarrow> 'a TagWriter) \<Rightarrow> 'a::{zero,one} Point \<Rightarrow> 'a TagWriter \<Rightarrow> 'a TagWriter" where
  "Point_export_entity super_export_entity self tagwriter =
     (let tw0 = super_export_entity self tagwriter;
          tw1 = (if dxfversion tw0 > DXF12
                 then write_tag2 SUBCLASS_MARKER (StrV (subclass_name (acdb_point :: 'a DefSubclass))) tw0
                 else tw0)
      in export_dxf_attribs acdb_point (dxf self) tw1
           [''location'', ''thickness'', ''extrusion'', ''angle''])"

section \<open>The modern factory\<close>

text \<open>
  An entity wrapper is a class; the classes of \<^verbatim>\<open>modern/__init__.py\<close> are named by
  their module (\<^verbatim>\<open>dxfobjects\<close>, \<^verbatim>\<open>tableentries\<close>, \<^verbatim>\<open>graphics\<close>) and their class name.
  \<open>legacy_class\<close> stands for a class that the legacy factory registered.
\<close>

datatype EntityWrapper =
    dxfobjects string
  | tableentries string
  | graphics string
  | legacy_class string

text \<open>
  \<^verbatim>\<open>UPDATE_ENTITY_WRAPPERS\<close> (modern/__init__.py, lines 17-62), entry by entry in the
  order of the source.
\<close>

definition UPDATE_ENTITY_WRAPPERS :: "(string \<times> EntityWrapper) list" where
  "UPDATE_ENTITY_WRAPPERS =
     [(''DICTIONARY'', dxfobjects ''DXFDictionary''),
      (''ACDBDICTIONARYWDFLT'', dxfobjects ''DXFDictionaryWithDefault''),
      (''PLOTSETTINGS'', dxfobjects ''DXFPlotSettings''),
      (''LAYOUT'', dxfobjects ''DXFLayout''),
      (''XRECORD'', dxfobjects ''XRecord''),
      (''DATATABLE'', dxfobjects ''DXFDataTable''),
      (''LAYER'', tableentries ''Layer''),
      (''STYLE'', tableentries ''Style''),
      (''LTYPE'', tableentries ''Linetype''),
      (''DIMSTYLE'', tableentries ''DimStyle''),
      (''VIEW'', tableentries ''View''),
      (''VPORT'', tableentries ''Viewport''),
      (''UCS'', tableentries ''UCS''),
      (''APPID'', tableentries ''AppID''),
      (''BLOCK_RECORD'', tableentries ''BlockRecord''),
      (''LINE'', graphics ''Line''),
      (''POINT'', graphics ''Point''),
      (''CIRCLE'', graphics ''Circle''),
      (''ARC'', graphics ''Arc''),
      (''TRACE'', graphics ''Trace''),
      (''SOLID'', graphics ''Solid''),
      (''3DFACE'', graphics ''Face''),
      (''TEXT'', graphics ''Text''),
      (''MTEXT'', graphics ''MText''),
      (''POLYLINE'', graphics ''Polyline''),
      (''VERTEX'', graphics ''Vertex''),
      (''SEQEND'', graphics ''SeqEnd''),
      (''LWPOLYLINE'', graphics ''LWPolyline''),
      (''BLOCK'', graphics ''Block''),
      (''ENDBLK'', graphics ''EndBlk''),
      (''INSERT'', graphics ''Insert''),
      (''ATTDEF'', graphics ''Attdef''),
      (''ATTRIB'', graphics ''Attrib''),
      (''ELLIPSE'', graphics ''Ellipse''),
      (''RAY'', graphics ''Ray''),
      (''XLINE'', graphics ''XLine''),
      (''SHAPE'', graphics ''Shape''),
      (''SPLINE'', graphics ''Spline''),
      (''BODY'', graphics ''Body''),
      (''REGION'', graphics ''Region''),
      (''3DSOLID'', graphics ''Solid3d'')]"

text \<open>
  A dictionary is a map from its keys; \<^verbatim>\<open>d.update(other)\<close> stores the items of
  \<^verbatim>\<open>other\<close> into \<^verbatim>\<open>d\<close> one after the other.
\<close>

fun dict_update :: "('k \<Rightarrow> 'v option) \<Rightarrow> ('k \<times> 'v) list \<Rightarrow> ('k \<Rightarrow> 'v option)" where
  "dict_update d [] = d"
| "dict_update d ((k, v) # items) = dict_update (d(k \<mapsto> v)) items"

record 'd DXFFactory =
  drawing :: 'd
  ENTITY_WRAPPERS :: "string \<Rightarrow> EntityWrapper option"

text \<open>
  Modelled from the spec: the class \<^verbatim>\<open>LegacyDXFFactory\<close> is not among the sources.
  Section 4.4: the legacy factory resolves type names through the shared base table;
  its constructor leaves the factory with that table, here the parameter
  \<open>legacy_wrappers\<close>.
\<close>

definition LegacyDXFFactory_init ::
    "(string \<Rightarrow> EntityWrapper option) \<Rightarrow> 'd \<Rightarrow> 'd DXFFactory" where
  "LegacyDXFFactory_init legacy_wrappers drw =
     \<lparr>drawing = drw, ENTITY_WRAPPERS = legacy_wrappers\<rparr>"

text \<open>
  \<^verbatim>\<open>ModernDXFFactory.__init__\<close> (modern/__init__.py, lines 72-74):
  \<^verbatim>\<open>
    super(ModernDXFFactory, self).__init__(drawing)
    self.ENTITY_WRAPPERS.update(UPDATE_ENTITY_WRAPPERS)
  \<close>
\<close>

definition ModernDXFFactory_init ::
    "(string \<Rightarrow> EntityWrapper option) \<Rightarrow> 'd \<Rightarrow> 'd DXFFactory" where
  "ModernDXFFactory_init legacy_wrappers drw =
     (let self = LegacyDXFFactory_init legacy_wrappers drw
      in self\<lparr>ENTITY_WRAPPERS := dict_update (ENTITY_WRAPPERS self) UPDATE_ENTITY_WRAPPERS\<rparr>)"

text \<open>
  The lookup order in the words of the spec (section 4.4): the override table of the
  revision first, then the shared base table.
\<close>

definition override_then_base ::
    "('k \<Rightarrow> 'v option) \<Rightarrow> ('k \<Rightarrow> 'v option) \<Rightarrow> 'k \<Rightarrow> 'v option" where
  "override_then_base override base nm =
     (case override nm of Some w \<Rightarrow> Some w | None \<Rightarrow> base nm)"

text \<open>
  \<^verbatim>\<open>TAGS_MODIFIER = {'VERTEX': graphics.Vertex.fix_tags}\<close> (line 70); the function
  \<^verbatim>\<open>Vertex.fix_tags\<close> is not among the sources and is a parameter, as is the type of
  the tag sequences it repairs.
\<close>

definition TAGS_MODIFIER :: "('t \<Rightarrow> 't) \<Rightarrow> (string \<times> ('t \<Rightarrow> 't)) list" where
  "TAGS_MODIFIER fix_tags = [(''VERTEX'', fix_tags)]"

text \<open>
  \<^verbatim>\<open>modify_tags\<close> (modern/__init__.py, lines 105-108):
  \<^verbatim>\<open>
    modifier = self.TAGS_MODIFIER.get(tags.dxftype(), None)
    if modifier is not None:
        modifier(tags)
  \<close>
  The table is the one the factory holds as \<^verbatim>\<open>self.TAGS_MODIFIER\<close>; \<open>dxftype\<close> reads the
  type name of a tag sequence. The modifier changes the tag sequence in place; the
  result is the tag sequence after the call.
\<close>

definition modify_tags ::
    "(string \<times> ('t \<Rightarrow> 't)) list \<Rightarrow> ('t \<Rightarrow> string) \<Rightarrow> 't \<Rightarrow> 't" where
  "modify_tags tags_modifier dxftype tags =
     (case map_of tags_modifier (dxftype tags) of
        None \<Rightarrow> tags
      | Some modifier \<Rightarrow> modifier tags)"

section \<open>Mesh data\<close>

text \<open>
  Modelled from the spec: the module \<^verbatim>\<open>ezdxf.modern.mesh\<close> is not among the sources,
  only its tests are (\<^verbatim>\<open>tests/test_modern_structures/test_mesh.py\<close>). Section 4.6: the
  mesh data are an ordered sequence of vertex positions, an ordered sequence of faces,
  each a sequence of indices into the vertices, and an ordered sequence of edges, each
  a pair of indices. A vertex is the tuple of coordinates the caller gave.
\<close>

record 'a MeshData =
  vertices :: "'a list list"
  faces :: "nat list list"
  edges :: "(nat \<times> nat) list"

text \<open>
  Modelled from the spec: \<^verbatim>\<open>add_vertex\<close> fails with InvalidValue unless it is given
  exactly three coordinates, and the failure comes before any change of the mesh
  (sections 4.6 and 7). The result is the mesh data after the call with either the
  error raised or the index of the new vertex.
\<close>

definition add_vertex :: "'a MeshData \<Rightarrow> 'a list \<Rightarrow> 'a MeshData \<times> (DXFError + nat)" where
  "add_vertex md vertex =
     (if length vertex \<noteq> 3 then (md, Inl InvalidValue)
      else (md\<lparr>vertices := vertices md @ [vertex]\<rparr>, Inr (length (vertices md))))"

text \<open>
  Modelled from the spec: \<^verbatim>\<open>optimize()\<close> (section 4.6) builds a mapping from each
  distinct vertex position, keyed by exact equality, to a canonical index in the order
  of first occurrence; rewrites the indices of every face and of every edge through
  that mapping; and replaces the vertices by the positions of the mapping in their
  canonical order. Faces left with fewer than three distinct indices and edges left
  with fewer than two are dropped.
\<close>

fun vertex_index_map :: "'v list \<Rightarrow> ('v \<times> nat) list \<Rightarrow> ('v \<times> nat) list" where
  "vertex_index_map [] m = m"
| "vertex_index_map (v # vs) m =
     (case map_of m v of
        Some i \<Rightarrow> vertex_index_map vs m
      | None \<Rightarrow> vertex_index_map vs (m @ [(v, length m)]))"

text \<open>
  The invariant of the loop that builds the index map: the positions are distinct and
  the k-th entry has the index k.
\<close>

definition index_map_ok :: "('v \<times> nat) list \<Rightarrow> bool" where
  "index_map_ok m \<longleftrightarrow> distinct (map fst m) \<and> map snd m = [0..<length m]"

text \<open>
  An index is rewritten by looking up the position it names; an index that names no
  vertex has no image, and the rewriting fails (\<open>None\<close>).
\<close>

definition remap_index :: "'v list \<Rightarrow> ('v \<times> nat) list \<Rightarrow> nat \<Rightarrow> nat option" where
  "remap_index vs m i = (if i < length vs then map_of m (vs ! i) else None)"

fun map_all :: "('a \<Rightarrow> 'b option) \<Rightarrow> 'a list \<Rightarrow> 'b list option" where
  "map_all f [] = Some []"
| "map_all f (x # xs) =
     (case f x of
        None \<Rightarrow> None
      | Some y \<Rightarrow> (case map_all f xs of None \<Rightarrow> None | Some ys \<Rightarrow> Some (y # ys)))"

definition remap_edge :: "'v list \<Rightarrow> ('v \<times> nat) list \<Rightarrow> nat \<times> nat \<Rightarrow> (nat \<times> nat) option" where
  "remap_edge vs m e =
     (case remap_index vs m (fst e) of
        None \<Rightarrow> None
      | Some a \<Rightarrow> (case remap_index vs m (snd e) of None \<Rightarrow> None | Some b \<Rightarrow> Some (a, b)))"

definition optimize :: "'a MeshData \<Rightarrow> 'a MeshData option" where
  "optimize md =
     (let m = vertex_index_map (vertices md) []
      in case map_all (map_all (remap_index (vertices md) m)) (faces md) of
           None \<Rightarrow> None
         | Some fs \<Rightarrow>
             (case map_all (remap_edge (vertices md) m) (edges md) of
                None \<Rightarrow> None
              | Some es \<Rightarrow>
                  Some (md\<lparr>vertices := map fst m,
                           faces := filter (\<lambda>f. 3 \<le> length (remdups f)) fs,
                           edges := filter (\<lambda>e. fst e \<noteq> snd e) es\<rparr>)))"

definition optimize_twice :: "'a MeshData \<Rightarrow> 'a MeshData option" where
  "optimize_twice md = (case optimize md of None \<Rightarrow> None | Some md1 \<Rightarrow> optimize md1)"

text \<open>
  The mesh of \<^verbatim>\<open>test_optimize\<close> (test_mesh.py, lines 79-109): the eight corners of the
  unit cube, its six faces as indices into the corners, and the mesh data after the
  six calls of \<^verbatim>\<open>add_face\<close>, each of which appends the four positions of one face as
  new vertices and a face of their four new indices (as \<^verbatim>\<open>test_add_faces\<close> shows for
  one face).
\<close>

definition cube_vertices :: "int list list" where
  "cube_vertices =
     [[0, 0, 0], [1, 0, 0], [1, 1, 0], [0, 1, 0],
      [0, 0, 1], [1, 0, 1], [1, 1, 1], [0, 1, 1]]"

definition cube_faces :: "nat list list" where
  "cube_faces =
     [[0, 1, 2, 3], [4, 5, 6, 7], [0, 1, 5, 4], [1, 2, 6, 5], [3, 2, 6, 7], [0, 3, 7, 4]]"

definition cube_mesh :: "int MeshData" where
  "cube_mesh =
     \<lparr>vertices = concat (map (map (\<lambda>i. cube_vertices ! i)) cube_faces),
      faces = [[0, 1, 2, 3], [4, 5, 6, 7], [8, 9, 10, 11], [12, 13, 14, 15],
               [16, 17, 18, 19], [20, 21, 22, 23]],
      edges = []\<rparr>"

section \<open>Properties of the transformations\<close>

lemma Vector_add_commute:
  fixes a b :: "'a::ab_semigroup_add Vector"
  shows "Vector_add a b = Vector_add b a"
  by (simp add: Vector_add_def add.commute)

text \<open>
  Claim C1. For every POINT and every matrix \<open>m\<close>, \<^verbatim>\<open>transform(m)\<close> stores
  \<^verbatim>\<open>m.transform\<close> of the old location as the new location, and the angle attribute
  of the entity is afterwards what it was before (set or not set, and its value).
\<close>

theorem Point_transform_location_angle:
  assumes "h self = Some p"
  shows "\<exists>h' p'. Point_transform self m h = Some (self, h') \<and> h' self = Some p' \<and>
           location (dxf p') = Some (transform m (dxf_location (dxf p))) \<and>
           angle (dxf p') = angle (dxf p)"
  using assms
  by (simp add: Point_transform_def transform_thickness_and_extrusion_without_ocs_def Let_def)

theorem Point_transform_location_angle_witness:
  "[0 \<mapsto> \<lparr>dxf = \<lparr>location = Some (Vector 1 2 3), thickness = None, extrusion = None,
                  angle = Some (30::int)\<rparr>\<rparr>] (0::nat) =
     Some \<lparr>dxf = \<lparr>location = Some (Vector 1 2 3), thickness = None, extrusion = None,
                  angle = Some 30\<rparr>\<rparr> \<and>
   (\<exists>h' p'.
      Point_transform 0
        \<lparr>transform = (\<lambda>v. Vector (2 * vx v + 5) (2 * vy v) (2 * vz v - 1)),
         linear_part = (\<lambda>te. te)\<rparr>
        [0 \<mapsto> \<lparr>dxf = \<lparr>location = Some (Vector 1 2 3), thickness = None, extrusion = None,
                       angle = Some (30::int)\<rparr>\<rparr>] = Some (0, h') \<and>
      h' 0 = Some p' \<and> location (dxf p') = Some (Vector 7 4 5) \<and> angle (dxf p') = Some 30)"
  using Point_transform_location_angle
    [of "[0 \<mapsto> \<lparr>dxf = \<lparr>location = Some (Vector 1 2 3), thickness = None, extrusion = None,
                       angle = Some (30::int)\<rparr>\<rparr>]" 0
        "\<lparr>dxf = \<lparr>location = Some (Vector 1 2 3), thickness = None, extrusion = None,
                angle = Some 30\<rparr>\<rparr>"
        "\<lparr>transform = (\<lambda>v. Vector (2 * vx v + 5) (2 * vy v) (2 * vz v - 1)),
          linear_part = (\<lambda>te. te)\<rparr>"]
  by (simp add: dxf_location_def)

text \<open>
  Claim C2. For every POINT and every offset, \<^verbatim>\<open>translate(dx, dy, dz)\<close> stores the sum
  of the old location and the offset as the new location, and leaves the thickness,
  the extrusion and the angle as they were.
\<close>

theorem Point_translate_shifts_location_only:
  fixes dx dy dz :: "'a::comm_monoid_add"
  assumes "h self = Some p"
  shows "\<exists>h' p'. Point_translate dx dy dz self h = Some (self, h') \<and> h' self = Some p' \<and>
           location (dxf p') = Some (Vector_add (dxf_location (dxf p)) (Vector dx dy dz)) \<and>
           thickness (dxf p') = thickness (dxf p) \<and>
           extrusion (dxf p') = extrusion (dxf p) \<and>
           angle (dxf p') = angle (dxf p)"
  using assms
  by (simp add: Point_translate_def Vector_add_commute [of "Vector dx dy dz"])

theorem Point_translate_shifts_location_only_witness:
  "[0 \<mapsto> \<lparr>dxf = \<lparr>location = Some (Vector 1 2 3), thickness = Some 2, extrusion = None,
                  angle = Some (30::int)\<rparr>\<rparr>] (0::nat) =
     Some \<lparr>dxf = \<lparr>location = Some (Vector 1 2 3), thickness = Some 2, extrusion = None,
                  angle = Some 30\<rparr>\<rparr> \<and>
   (\<exists>h' p'.
      Point_translate 10 20 30 0
        [0 \<mapsto> \<lparr>dxf = \<lparr>location = Some (Vector 1 2 3), thickness = Some 2, extrusion = None,
                       angle = Some (30::int)\<rparr>\<rparr>] = Some (0, h') \<and>
      h' 0 = Some p' \<and> location (dxf p') = Some (Vector 11 22 33) \<and>
      thickness (dxf p') = Some 2 \<and> extrusion (dxf p') = None \<and> angle (dxf p') = Some 30)"
  using Point_translate_shifts_location_only
    [of "[0 \<mapsto> \<lparr>dxf = \<lparr>location = Some (Vector 1 2 3), thickness = Some 2, extrusion = None,
                       angle = Some (30::int)\<rparr>\<rparr>]" 0
        "\<lparr>dxf = \<lparr>location = Some (Vector 1 2 3), thickness = Some 2, extrusion = None,
                angle = Some 30\<rparr>\<rparr>" 10 20 30]
  by (simp add: dxf_location_def Vector_add_def)

text \<open>
  Claim C9. Both methods work in place and return \<open>self\<close>: the reference returned is
  the one the method was called on, and the store after the call is the store before
  it with the state of that one object replaced, by the state with the transformed
  location, thickness and extrusion for \<^verbatim>\<open>transform\<close> and by the state with the shifted
  location for \<^verbatim>\<open>translate\<close>; no object is created and no other object is changed.
\<close>

theorem Point_transform_translate_return_self:
  assumes "h self = Some p"
  shows "Point_transform self m h =
           Some (self,
             h(self \<mapsto> p\<lparr>dxf := (dxf p)
                \<lparr>location := Some (transform m (dxf_location (dxf p))),
                 thickness := fst (linear_part m (thickness (dxf p), extrusion (dxf p))),
                 extrusion := snd (linear_part m (thickness (dxf p), extrusion (dxf p)))\<rparr>\<rparr>)) \<and>
         Point_translate dx dy dz self h =
           Some (self,
             h(self \<mapsto> p\<lparr>dxf := (dxf p)
                \<lparr>location := Some (Vector_add (Vector dx dy dz) (dxf_location (dxf p)))\<rparr>\<rparr>))"
  using assms
  by (simp add: Point_transform_def Point_translate_def
      transform_thickness_and_extrusion_without_ocs_def Let_def)

theorem Point_transform_translate_return_self_witness:
  "[0 \<mapsto> \<lparr>dxf = \<lparr>location = None, thickness = None, extrusion = None, angle = None\<rparr>\<rparr>,
    1 \<mapsto> \<lparr>dxf = \<lparr>location = Some (Vector (4::int) 5 6), thickness = None, extrusion = None,
                  angle = None\<rparr>\<rparr>] (1::nat) =
     Some \<lparr>dxf = \<lparr>location = Some (Vector 4 5 6), thickness = None, extrusion = None,
                  angle = None\<rparr>\<rparr> \<and>
   Point_transform 1
        \<lparr>transform = (\<lambda>v. Vector (vy v) (vx v) (vz v)), linear_part = (\<lambda>te. te)\<rparr>
        [0 \<mapsto> \<lparr>dxf = \<lparr>location = None, thickness = None, extrusion = None, angle = None\<rparr>\<rparr>,
         1 \<mapsto> \<lparr>dxf = \<lparr>location = Some (Vector (4::int) 5 6), thickness = None,
                       extrusion = None, angle = None\<rparr>\<rparr>] =
      Some (1,
        [0 \<mapsto> \<lparr>dxf = \<lparr>location = None, thickness = None, extrusion = None, angle = None\<rparr>\<rparr>,
         1 \<mapsto> \<lparr>dxf = \<lparr>location = Some (Vector 5 4 6), thickness = None,
                       extrusion = None, angle = None\<rparr>\<rparr>]) \<and>
   Point_translate 1 1 1 1
        [0 \<mapsto> \<lparr>dxf = \<lparr>location = None, thickness = None, extrusion = None, angle = None\<rparr>\<rparr>,
         1 \<mapsto> \<lparr>dxf = \<lparr>location = Some (Vector (4::int) 5 6), thickness = None,
                       extrusion = None, angle = None\<rparr>\<rparr>] =
      Some (1,
        [0 \<mapsto> \<lparr>dxf = \<lparr>location = None, thickness = None, extrusion = None, angle = None\<rparr>\<rparr>,
         1 \<mapsto> \<lparr>dxf = \<lparr>location = Some (Vector 5 6 7), thickness = None,
                       extrusion = None, angle = None\<rparr>\<rparr>])"
  using Point_transform_translate_return_self
    [of "[0 \<mapsto> \<lparr>dxf = \<lparr>location = None, thickness = None, extrusion = None, angle = None\<rparr>\<rparr>,
          1 \<mapsto> \<lparr>dxf = \<lparr>location = Some (Vector (4::int) 5 6), thickness = None,
                        extrusion = None, angle = None\<rparr>\<rparr>]" 1
        "\<lparr>dxf = \<lparr>location = Some (Vector 4 5 6), thickness = None, extrusion = None,
                angle = None\<rparr>\<rparr>"
        "\<lparr>transform = (\<lambda>v. Vector (vy v) (vx v) (vz v)), linear_part = (\<lambda>te. te)\<rparr>" 1 1 1]
  by (simp add: dxf_location_def Vector_add_def)

section \<open>Properties of loading and exporting\<close>

lemma fold_remove_first_code_Cons:
  "distinct cs \<Longrightarrow>
   fold remove_first_code cs (t # ts) =
     (if fst t \<in> set cs then fold remove_first_code (remove1 (fst t) cs) ts
      else t # fold remove_first_code cs ts)"
proof (induction cs arbitrary: ts)
  case Nil
  then show ?case by simp
next
  case (Cons c cs)
  show ?case
  proof (cases "fst t = c")
    case True
    then show ?thesis by simp
  next
    case False
    from Cons.prems have "distinct cs" by simp
    from Cons.IH [OF this, of "remove_first_code c ts"] False show ?thesis by simp
  qed
qed

lemma ex_less_Suc_nth:
  "(\<exists>j<Suc i. fst ((t # ts) ! j) = c) \<longleftrightarrow> fst t = c \<or> (\<exists>j<i. fst (ts ! j) = c)"
  by (auto simp: less_Suc_eq_0_disj)

lemma fold_remove_first_code_Nil: "fold remove_first_code cs [] = []"
  by (induction cs) simp_all

text \<open>
  The tags that are left are the tags at the positions whose group code is no code of
  the schema or occurred at an earlier position: each descriptor takes the first tag of
  its code and no other.
\<close>

lemma fold_remove_first_code_nths:
  "distinct cs \<Longrightarrow>
   fold remove_first_code cs ts =
     nths ts {i. fst (ts ! i) \<notin> set cs \<or> (\<exists>j<i. fst (ts ! j) = fst (ts ! i))}"
proof (induction ts arbitrary: cs)
  case Nil
  then show ?case by (simp add: fold_remove_first_code_Nil)
next
  case (Cons t ts)
  let ?A = "{i. fst ((t # ts) ! i) \<notin> set cs \<or>
                (\<exists>j<i. fst ((t # ts) ! j) = fst ((t # ts) ! i))}"
  show ?case
  proof (cases "fst t \<in> set cs")
    case True
    from Cons.prems have d: "distinct (remove1 (fst t) cs)" by simp
    have s: "{j. Suc j \<in> ?A} =
             {i. fst (ts ! i) \<notin> set (remove1 (fst t) cs) \<or> (\<exists>j<i. fst (ts ! j) = fst (ts ! i))}"
      using Cons.prems by (auto simp: ex_less_Suc_nth)
    from True have "0 \<notin> ?A" by simp
    then have "nths (t # ts) ?A = nths ts {j. Suc j \<in> ?A}"
      by (simp only: nths_Cons if_False append_Nil)
    also have "\<dots> = fold remove_first_code (remove1 (fst t) cs) ts"
      by (simp only: s Cons.IH [OF d])
    also have "\<dots> = fold remove_first_code cs (t # ts)"
      using True by (simp only: fold_remove_first_code_Cons [OF Cons.prems] if_True)
    finally show ?thesis by (rule sym)
  next
    case False
    have s: "{j. Suc j \<in> ?A} =
             {i. fst (ts ! i) \<notin> set cs \<or> (\<exists>j<i. fst (ts ! j) = fst (ts ! i))}"
      using False by (auto simp: ex_less_Suc_nth)
    from False have "0 \<in> ?A" by simp
    then have "nths (t # ts) ?A = t # nths ts {j. Suc j \<in> ?A}"
      by (simp only: nths_Cons if_True append_Cons append_Nil)
    also have "\<dots> = t # fold remove_first_code cs ts"
      by (simp only: s Cons.IH [OF Cons.prems])
    also have "\<dots> = fold remove_first_code cs (t # ts)"
      using False by (simp only: fold_remove_first_code_Cons [OF Cons.prems] if_False)
    finally show ?thesis by (rule sym)
  qed
qed

lemma acdb_point_codes:
  "map (\<lambda>d. attr_code (snd d)) (subclass_attribs (acdb_point :: 'a::{zero,one} DefSubclass)) = [10, 39, 210, 50]"
  by (simp add: acdb_point_def)

lemma acdb_point_name: "subclass_name (acdb_point :: 'a::{zero,one} DefSubclass) = ''AcDbPoint''"
  by (simp add: acdb_point_def)

text \<open>
  Claim C3, as the code has it. When a POINT is loaded, \<^verbatim>\<open>load_dxfattribs_into_namespace\<close>
  returns the tags of the sub-record that no descriptor of \<^verbatim>\<open>acdb_point\<close> consumed:
  exactly the tags, in their order, at the positions where the group code is none of
  10, 39, 210 and 50 or repeats the group code of an earlier tag of the sub-record.
  Under a revision later than the legacy one (\<^verbatim>\<open>r12\<close> false) they are reported as one
  notice for the sub-record AcDbPoint whenever there is at least one; under the legacy
  revision no notice is made.
\<close>

theorem Point_load_dxf_attribs_reports_residue:
  fixes pr :: "'a::{zero,one} SubclassProcessor"
  assumes "super_load (Some pr) log = Inr (dxf0, log0)"
      and "load_dxfattribs_into_namespace pr dxf0 acdb_point = Inr (dxf1, tags)"
  shows "Point_load_dxf_attribs super_load (Some pr) log =
           Inr (dxf1, if tags \<noteq> [] \<and> \<not> r12 pr then log0 @ [(''AcDbPoint'', tags)] else log0) \<and>
         tags = nths (find_subclass pr ''AcDbPoint'')
           {i. fst (find_subclass pr ''AcDbPoint'' ! i) \<notin> {10, 39, 210, 50} \<or>
               (\<exists>j<i. fst (find_subclass pr ''AcDbPoint'' ! j) =
                        fst (find_subclass pr ''AcDbPoint'' ! i))}"
proof
  show "Point_load_dxf_attribs super_load (Some pr) log =
           Inr (dxf1, if tags \<noteq> [] \<and> \<not> r12 pr then log0 @ [(''AcDbPoint'', tags)] else log0)"
    using assms by (simp add: Point_load_dxf_attribs_def log_unprocessed_tags_def acdb_point_name)
next
  from assms(2) have tags: "tags = unconsumed (subclass_attribs (acdb_point :: 'a DefSubclass)) (find_subclass pr ''AcDbPoint'')"
    by (auto simp: load_dxfattribs_into_namespace_def acdb_point_name Let_def split: sum.splits)
  have "distinct [10, 39, 210, 50 :: int]" by simp
  from fold_remove_first_code_nths [OF this, of "find_subclass pr ''AcDbPoint''"]
  show "tags = nths (find_subclass pr ''AcDbPoint'')
           {i. fst (find_subclass pr ''AcDbPoint'' ! i) \<notin> {10, 39, 210, 50} \<or>
               (\<exists>j<i. fst (find_subclass pr ''AcDbPoint'' ! j) =
                        fst (find_subclass pr ''AcDbPoint'' ! i))}"
    unfolding tags unconsumed_def acdb_point_codes by simp
qed

theorem Point_load_dxf_attribs_reports_residue_witness:
  "(\<lambda>pr log. Inr (\<lparr>location = None, thickness = None, extrusion = None, angle = None\<rparr>, log))
     (Some \<lparr>subclasses =
        [[(0, StrV ''POINT''), (5, StrV ''2E2'')],
         [(100, StrV ''AcDbEntity''), (8, StrV ''0'')],
         [(100, StrV ''AcDbPoint''), (10, VecV (Vector 1 2 3)), (50, DblV 30), (50, DblV 45),
          (440, IntV 1)]],
        r12 = False\<rparr>) [] =
     (Inr (\<lparr>location = None, thickness = None, extrusion = None, angle = None\<rparr>, [])
        :: DXFError + (int DXFNamespace \<times> int notices)) \<and>
   load_dxfattribs_into_namespace
     \<lparr>subclasses =
        [[(0, StrV ''POINT''), (5, StrV ''2E2'')],
         [(100, StrV ''AcDbEntity''), (8, StrV ''0'')],
         [(100, StrV ''AcDbPoint''), (10, VecV (Vector 1 2 3)), (50, DblV 30), (50, DblV 45),
          (440, IntV 1)]],
        r12 = False\<rparr>
     \<lparr>location = None, thickness = None, extrusion = None, angle = None\<rparr> acdb_point =
     Inr (\<lparr>location = Some (Vector 1 2 3), thickness = None, extrusion = None, angle = Some (30::int)\<rparr>,
          [(50, DblV 45), (440, IntV 1)]) \<and>
   Point_load_dxf_attribs
     (\<lambda>pr log. Inr (\<lparr>location = None, thickness = None, extrusion = None, angle = None\<rparr>, log))
     (Some \<lparr>subclasses =
        [[(0, StrV ''POINT''), (5, StrV ''2E2'')],
         [(100, StrV ''AcDbEntity''), (8, StrV ''0'')],
         [(100, StrV ''AcDbPoint''), (10, VecV (Vector 1 2 3)), (50, DblV 30), (50, DblV 45),
          (440, IntV 1)]],
        r12 = False\<rparr>) [] =
     Inr (\<lparr>location = Some (Vector 1 2 3), thickness = None, extrusion = None, angle = Some (30::int)\<rparr>,
          [(''AcDbPoint'', [(50, DblV 45), (440, IntV 1)])])"
proof -
  let ?ns0 = "\<lparr>location = None, thickness = None, extrusion = None, angle = None\<rparr> :: int DXFNamespace"
  let ?super = "\<lambda>(pr :: int SubclassProcessor option) (log :: int notices).
                  (Inr (?ns0, log) :: DXFError + (int DXFNamespace \<times> int notices))"
  let ?pr = "\<lparr>subclasses =
        [[(0, StrV ''POINT''), (5, StrV ''2E2'')],
         [(100, StrV ''AcDbEntity''), (8, StrV ''0'')],
         [(100, StrV ''AcDbPoint''), (10, VecV (Vector 1 2 3)), (50, DblV 30), (50, DblV 45),
          (440, IntV 1)]],
        r12 = False\<rparr> :: int SubclassProcessor"
  let ?ns1 = "\<lparr>location = Some (Vector 1 2 3), thickness = None, extrusion = None, angle = Some (30::int)\<rparr>"
  have h1: "?super (Some ?pr) [] = Inr (?ns0, [])"
    by simp
  have h2: "load_dxfattribs_into_namespace ?pr ?ns0 acdb_point =
      Inr (?ns1, [(50, DblV 45), (440, IntV 1)])"
    by (simp add: load_dxfattribs_into_namespace_def find_subclass_def SUBCLASS_MARKER_def
        acdb_point_def set_attrib_def unconsumed_def)
  from h1 h2 Point_load_dxf_attribs_reports_residue
      [of ?super ?pr "[]" ?ns0 "[]" ?ns1 "[(50, DblV 45), (440, IntV 1)]"]
  have "Point_load_dxf_attribs ?super (Some ?pr) [] =
      Inr (?ns1, [(''AcDbPoint'', [(50, DblV 45), (440, IntV 1)])])"
    by simp
  with h1 h2 show ?thesis by simp
qed

text \<open>
  Claim C3 as it is stated fails for the legacy revision: a legacy POINT with a tag
  of group code 440, which no descriptor consumes, loads without any notice.
\<close>

theorem Point_load_dxf_attribs_legacy_counterexample:
  "load_dxfattribs_into_namespace
     \<lparr>subclasses =
        [[(0, StrV ''POINT''), (8, StrV ''0''), (10, VecV (Vector 1 2 3)), (440, IntV 1)]],
      r12 = True\<rparr>
     \<lparr>location = None, thickness = None, extrusion = None, angle = None\<rparr> acdb_point =
     Inr (\<lparr>location = Some (Vector 1 2 (3::int)), thickness = None, extrusion = None, angle = None\<rparr>,
          [(0, StrV ''POINT''), (8, StrV ''0''), (440, IntV 1)]) \<and>
   Point_load_dxf_attribs
     (\<lambda>pr log. Inr (\<lparr>location = None, thickness = None, extrusion = None, angle = None\<rparr>, log))
     (Some \<lparr>subclasses =
        [[(0, StrV ''POINT''), (8, StrV ''0''), (10, VecV (Vector 1 2 3)), (440, IntV 1)]],
      r12 = True\<rparr>) [] =
     Inr (\<lparr>location = Some (Vector 1 2 (3::int)), thickness = None, extrusion = None, angle = None\<rparr>,
          [])"
  by (simp add: Point_load_dxf_attribs_def load_dxfattribs_into_namespace_def find_subclass_def
      acdb_point_def set_attrib_def unconsumed_def)

text \<open>
  Claim C4. For every POINT and every target revision, the export writes, after the
  tags of the parent class, the marker tag (100, AcDbPoint) exactly when the revision
  is later than DXF12, and then the attributes in the order location, thickness,
  extrusion, angle (group codes 10, 39, 210, 50); an optional attribute that is not
  set writes no tag.
\<close>

theorem Point_export_entity_marker_and_order:
  fixes self :: "'a::{zero,one} Point"
  shows "written (Point_export_entity super_export_entity self tagwriter) =
     written (super_export_entity self tagwriter) @
     (if dxfversion (super_export_entity self tagwriter) > DXF12
      then [(100, StrV ''AcDbPoint'')] else []) @
     [(10, VecV (dxf_location (dxf self)))] @
     (case thickness (dxf self) of None \<Rightarrow> [] | Some t \<Rightarrow> [(39, DblV t)]) @
     (case extrusion (dxf self) of None \<Rightarrow> [] | Some e \<Rightarrow> [(210, VecV e)]) @
     (case angle (dxf self) of None \<Rightarrow> [] | Some a \<Rightarrow> [(50, DblV a)])"
  by (simp add: Point_export_entity_def Let_def acdb_point_def get_attrib_def write_tag2_def
      SUBCLASS_MARKER_def dxf_location_def split: option.splits)

theorem Point_export_entity_marker_and_order_witness:
  "written (Point_export_entity (\<lambda>self. write_tag2 0 (StrV ''POINT''))
      \<lparr>dxf = \<lparr>location = Some (Vector 1 2 3), thickness = None, extrusion = None,
               angle = Some (30::int)\<rparr>\<rparr>
      \<lparr>dxfversion = ''AC1015'', written = []\<rparr>) =
     [(0, StrV ''POINT''), (100, StrV ''AcDbPoint''), (10, VecV (Vector 1 2 3)), (50, DblV 30)] \<and>
   written (Point_export_entity (\<lambda>self. write_tag2 0 (StrV ''POINT''))
      \<lparr>dxf = \<lparr>location = Some (Vector 1 2 3), thickness = None, extrusion = None,
               angle = Some (30::int)\<rparr>\<rparr>
      \<lparr>dxfversion = ''AC1009'', written = []\<rparr>) =
     [(0, StrV ''POINT''), (10, VecV (Vector 1 2 3)), (50, DblV 30)]"
  using Point_export_entity_marker_and_order
      [of "\<lambda>self. write_tag2 0 (StrV ''POINT'')"
          "\<lparr>dxf = \<lparr>location = Some (Vector 1 2 3), thickness = None, extrusion = None,
                  angle = Some (30::int)\<rparr>\<rparr>"
          "\<lparr>dxfversion = ''AC1015'', written = []\<rparr>"]
    Point_export_entity_marker_and_order
      [of "\<lambda>self. write_tag2 0 (StrV ''POINT'')"
          "\<lparr>dxf = \<lparr>location = Some (Vector 1 2 3), thickness = None, extrusion = None,
                  angle = Some (30::int)\<rparr>\<rparr>"
          "\<lparr>dxfversion = ''AC1009'', written = []\<rparr>"]
  by (simp add: write_tag2_def DXF12_def dxf_location_def)

section \<open>Properties of the modern factory\<close>

lemma dict_update_map_add:
  "distinct (map fst items) \<Longrightarrow> dict_update d items = d ++ map_of items"
proof (induction items arbitrary: d)
  case Nil
  then show ?case by simp
next
  case (Cons kv items)
  obtain k v where kv: "kv = (k, v)" by (cases kv)
  from Cons.prems kv have notin: "k \<notin> fst ` set items" and dist: "distinct (map fst items)"
    by auto
  from notin have "k \<notin> dom (map_of items)"
    by (simp add: dom_map_of_conv_image_fst)
  then have "d(k \<mapsto> v) ++ map_of items = (d ++ map_of items)(k \<mapsto> v)"
    by (rule map_add_upd_left)
  also have "\<dots> = d ++ (map_of items)(k \<mapsto> v)"
    by (simp only: map_add_upd)
  finally have "d(k \<mapsto> v) ++ map_of items = d ++ map_of ((k, v) # items)"
    by (simp only: map_of.simps fst_conv snd_conv)
  with Cons.IH [OF dist, of "d(k \<mapsto> v)"] show ?case
    unfolding kv by (simp only: dict_update.simps)
qed

lemma UPDATE_ENTITY_WRAPPERS_distinct: "distinct (map fst UPDATE_ENTITY_WRAPPERS)"
  by (simp add: UPDATE_ENTITY_WRAPPERS_def)

text \<open>
  Claim C8. The wrapper table of the modern factory is the legacy table overridden by
  the entries of \<^verbatim>\<open>UPDATE_ENTITY_WRAPPERS\<close>: looking a type name up in it consults the
  override entries first and falls back to the legacy table, so a name with an
  override entry resolves to the modern class and a name without one resolves to what
  the legacy table gives.
\<close>

theorem ModernDXFFactory_wrappers_override_legacy:
  "ENTITY_WRAPPERS (ModernDXFFactory_init legacy_wrappers drw) =
     legacy_wrappers ++ map_of UPDATE_ENTITY_WRAPPERS \<and>
   ENTITY_WRAPPERS (ModernDXFFactory_init legacy_wrappers drw) nm =
     override_then_base (map_of UPDATE_ENTITY_WRAPPERS) legacy_wrappers nm \<and>
   (map_of UPDATE_ENTITY_WRAPPERS nm = Some w \<longrightarrow>
      ENTITY_WRAPPERS (ModernDXFFactory_init legacy_wrappers drw) nm = Some w) \<and>
   (map_of UPDATE_ENTITY_WRAPPERS nm = None \<longrightarrow>
      ENTITY_WRAPPERS (ModernDXFFactory_init legacy_wrappers drw) nm = legacy_wrappers nm)"
proof -
  have tbl: "ENTITY_WRAPPERS (ModernDXFFactory_init legacy_wrappers drw) =
      legacy_wrappers ++ map_of UPDATE_ENTITY_WRAPPERS"
    by (simp add: ModernDXFFactory_init_def LegacyDXFFactory_init_def Let_def
        dict_update_map_add [OF UPDATE_ENTITY_WRAPPERS_distinct])
  show ?thesis
    unfolding tbl by (simp add: override_then_base_def map_add_def split: option.splits)
qed

theorem ModernDXFFactory_wrappers_override_legacy_witness:
  "map_of UPDATE_ENTITY_WRAPPERS ''POINT'' = Some (graphics ''Point'') \<and>
   ENTITY_WRAPPERS (ModernDXFFactory_init
       [''POINT'' \<mapsto> legacy_class ''Point'', ''VIEWPORT'' \<mapsto> legacy_class ''Viewport''] ())
     ''POINT'' = Some (graphics ''Point'') \<and>
   map_of UPDATE_ENTITY_WRAPPERS ''VIEWPORT'' = None \<and>
   ENTITY_WRAPPERS (ModernDXFFactory_init
       [''POINT'' \<mapsto> legacy_class ''Point'', ''VIEWPORT'' \<mapsto> legacy_class ''Viewport''] ())
     ''VIEWPORT'' = Some (legacy_class ''Viewport'')"
proof -
  have p: "map_of UPDATE_ENTITY_WRAPPERS ''POINT'' = Some (graphics ''Point'')"
    by (simp add: UPDATE_ENTITY_WRAPPERS_def)
  have v: "map_of UPDATE_ENTITY_WRAPPERS ''VIEWPORT'' = None"
    by (simp add: UPDATE_ENTITY_WRAPPERS_def)
  let ?legacy = "[''POINT'' \<mapsto> legacy_class ''Point'', ''VIEWPORT'' \<mapsto> legacy_class ''Viewport'']"
  have a: "ENTITY_WRAPPERS (ModernDXFFactory_init ?legacy ()) ''POINT'' = Some (graphics ''Point'')"
    using p ModernDXFFactory_wrappers_override_legacy
      [of ?legacy "()" "''POINT''" "graphics ''Point''"]
    by blast
  have "ENTITY_WRAPPERS (ModernDXFFactory_init ?legacy ()) ''VIEWPORT'' = ?legacy ''VIEWPORT''"
    using v ModernDXFFactory_wrappers_override_legacy
      [of ?legacy "()" "''VIEWPORT''" "graphics ''Point''"]
    by blast
  then have b: "ENTITY_WRAPPERS (ModernDXFFactory_init ?legacy ()) ''VIEWPORT'' =
      Some (legacy_class ''Viewport'')"
    by simp
  from p v a b show ?thesis by (intro conjI)
qed

text \<open>
  Claim C10. A tag sequence whose type name has no entry in the table of fixup hooks
  comes out of \<^verbatim>\<open>modify_tags\<close> as it went in. In the modern factory the table has the
  one key VERTEX: every tag sequence of another type name is left as it is, and for
  VERTEX the result is what \<^verbatim>\<open>Vertex.fix_tags\<close> makes of it.
\<close>

theorem modify_tags_only_registered:
  "(map_of tags_modifier (dxftype tags) = None \<longrightarrow>
      modify_tags tags_modifier dxftype tags = tags) \<and>
   (dxftype tags \<noteq> ''VERTEX'' \<longrightarrow>
      modify_tags (TAGS_MODIFIER fix_tags) dxftype tags = tags) \<and>
   (dxftype tags = ''VERTEX'' \<longrightarrow>
      modify_tags (TAGS_MODIFIER fix_tags) dxftype tags = fix_tags tags) \<and>
   fst ` set (TAGS_MODIFIER fix_tags) = {''VERTEX''}"
  by (simp add: modify_tags_def TAGS_MODIFIER_def)

theorem modify_tags_only_registered_witness:
  "map_of (TAGS_MODIFIER (\<lambda>tags. tags @ [(70::int, ''32'')]))
      (case [(0::int, ''vertex''), (8, ''0'')] of [] \<Rightarrow> [] | t # _ \<Rightarrow> snd t) = None \<and>
   modify_tags (TAGS_MODIFIER (\<lambda>tags. tags @ [(70::int, ''32'')]))
      (\<lambda>tags. case tags of [] \<Rightarrow> [] | t # _ \<Rightarrow> snd t) [(0, ''vertex''), (8, ''0'')] =
     [(0, ''vertex''), (8, ''0'')] \<and>
   modify_tags (TAGS_MODIFIER (\<lambda>tags. tags @ [(70::int, ''32'')]))
      (\<lambda>tags. case tags of [] \<Rightarrow> [] | t # _ \<Rightarrow> snd t) [(0, ''VERTEX''), (8, ''0'')] =
     [(0, ''VERTEX''), (8, ''0''), (70, ''32'')]"
  using modify_tags_only_registered
      [of "TAGS_MODIFIER (\<lambda>tags. tags @ [(70::int, ''32'')])"
          "\<lambda>tags. case tags of [] \<Rightarrow> [] | t # _ \<Rightarrow> snd t" "[(0, ''vertex''), (8, ''0'')]"
          "\<lambda>tags. tags @ [(70::int, ''32'')]"]
    modify_tags_only_registered
      [of "TAGS_MODIFIER (\<lambda>tags. tags @ [(70::int, ''32'')])"
          "\<lambda>tags. case tags of [] \<Rightarrow> [] | t # _ \<Rightarrow> snd t" "[(0, ''VERTEX''), (8, ''0'')]"
          "\<lambda>tags. tags @ [(70::int, ''32'')]"]
  by (simp add: TAGS_MODIFIER_def)

section \<open>Properties of the mesh data\<close>

text \<open>
  Claim C5. For every mesh and every vertex whose number of coordinates is not three,
  \<^verbatim>\<open>add_vertex\<close> fails with InvalidValue and the mesh data after the failed call are the
  mesh data before it.
\<close>

theorem add_vertex_rejects_wrong_arity:
  assumes "length vertex \<noteq> 3"
  shows "add_vertex md vertex = (md, Inl InvalidValue)"
  using assms by (simp add: add_vertex_def)

theorem add_vertex_rejects_wrong_arity_witness:
  "length [0::int, 0] \<noteq> 3 \<and>
   add_vertex \<lparr>vertices = [[0, 0, 0]], faces = [], edges = []\<rparr> [0::int, 0] =
     (\<lparr>vertices = [[0, 0, 0]], faces = [], edges = []\<rparr>, Inl InvalidValue)"
  using add_vertex_rejects_wrong_arity
    [of "[0::int, 0]" "\<lparr>vertices = [[0, 0, 0]], faces = [], edges = []\<rparr>"]
  by simp

subsection \<open>The index map\<close>

lemma index_map_ok_snoc:
  assumes "index_map_ok m" and "map_of m v = None"
  shows "index_map_ok (m @ [(v, length m)])"
proof -
  from assms(2) have "v \<notin> fst ` set m"
    by (simp add: map_of_eq_None_iff)
  with assms(1) show ?thesis
    by (simp add: index_map_ok_def)
qed

lemma vertex_index_map_ok:
  "index_map_ok m \<Longrightarrow> index_map_ok (vertex_index_map vs m)"
proof (induction vs arbitrary: m)
  case Nil
  then show ?case by simp
next
  case (Cons v vs)
  show ?case
  proof (cases "map_of m v")
    case None
    with Cons.prems have "index_map_ok (m @ [(v, length m)])"
      by (simp add: index_map_ok_snoc)
    with Cons.IH None show ?thesis by simp
  next
    case (Some i)
    with Cons show ?thesis by simp
  qed
qed

lemma vertex_index_map_keeps:
  "map_of m v = Some i \<Longrightarrow> map_of (vertex_index_map vs m) v = Some i"
proof (induction vs arbitrary: m)
  case Nil
  then show ?case by simp
next
  case (Cons w vs)
  show ?case
  proof (cases "map_of m w")
    case None
    from Cons.prems have "map_of (m @ [(w, length m)]) v = Some i"
      by (simp add: map_add_Some_iff)
    with Cons.IH None show ?thesis by simp
  next
    case (Some j)
    with Cons show ?thesis by simp
  qed
qed

lemma vertex_index_map_total:
  "v \<in> set vs \<Longrightarrow> \<exists>i. map_of (vertex_index_map vs m) v = Some i"
proof (induction vs arbitrary: m)
  case Nil
  then show ?case by simp
next
  case (Cons w vs)
  show ?case
  proof (cases "map_of m w")
    case None
    show ?thesis
    proof (cases "v = w")
      case True
      have "map_of (m @ [(w, length m)]) w = Some (length m)"
        using None by (simp add: map_add_Some_iff)
      then have "map_of (vertex_index_map vs (m @ [(w, length m)])) w = Some (length m)"
        by (rule vertex_index_map_keeps)
      with None True show ?thesis by simp
    next
      case False
      with Cons.prems have "v \<in> set vs" by simp
      from Cons.IH [OF this] None show ?thesis by simp
    qed
  next
    case (Some j)
    show ?thesis
    proof (cases "v = w")
      case True
      from Some have "map_of (vertex_index_map vs m) w = Some j"
        by (rule vertex_index_map_keeps)
      with Some True show ?thesis by simp
    next
      case False
      with Cons.prems have "v \<in> set vs" by simp
      from Cons.IH [OF this] Some show ?thesis by simp
    qed
  qed
qed

lemma index_map_ok_nth:
  assumes "index_map_ok m" and "j < length m"
  shows "map_of m (map fst m ! j) = Some j"
proof -
  have z: "m = zip (map fst m) (map snd m)"
    by (simp add: zip_map_fst_snd)
  from assms have "map_of (zip (map fst m) (map snd m)) (map fst m ! j) = Some (map snd m ! j)"
    by (intro map_of_zip_nth) (simp_all add: index_map_ok_def)
  moreover from assms have "map snd m ! j = j"
    by (simp add: index_map_ok_def)
  ultimately show ?thesis using z by simp
qed

lemma index_map_ok_bound:
  assumes "index_map_ok m" and "map_of m v = Some j"
  shows "j < length m"
proof -
  from assms(2) have "(v, j) \<in> set m" by (rule map_of_SomeD)
  then have "j \<in> set (map snd m)" by force
  with assms(1) show ?thesis by (simp add: index_map_ok_def)
qed

lemma vertex_index_map_fixed:
  "index_map_ok (m0 @ m1) \<Longrightarrow> vertex_index_map (map fst m1) m0 = m0 @ m1"
proof (induction m1 arbitrary: m0)
  case Nil
  then show ?case by simp
next
  case (Cons p m1)
  obtain v j where p: "p = (v, j)" by (cases p)
  from Cons.prems p have ok: "index_map_ok ((m0 @ [(v, j)]) @ m1)" by simp
  from Cons.prems p have "v \<notin> fst ` set m0"
    by (auto simp: index_map_ok_def)
  then have none: "map_of m0 v = None"
    by (simp add: map_of_eq_None_iff)
  from Cons.prems p have "map snd (m0 @ (v, j) # m1) ! length m0 = [0..<length (m0 @ (v, j) # m1)] ! length m0"
    by (simp add: index_map_ok_def)
  then have j: "j = length m0"
    by (simp add: nth_append)
  from Cons.IH [OF ok] have "vertex_index_map (map fst m1) (m0 @ [(v, j)]) = m0 @ (v, j) # m1"
    by simp
  with none j p show ?case by simp
qed

subsection \<open>Rewriting all elements of a list\<close>

lemma map_all_id:
  "(\<And>x. x \<in> set xs \<Longrightarrow> f x = Some x) \<Longrightarrow> map_all f xs = Some xs"
  by (induction xs) simp_all

lemma map_all_Some_set:
  "map_all f xs = Some ys \<Longrightarrow> y \<in> set ys \<Longrightarrow> \<exists>x \<in> set xs. f x = Some y"
proof (induction xs arbitrary: ys)
  case Nil
  then show ?case by simp
next
  case (Cons x xs)
  then show ?case
    by (auto split: option.splits)
qed

lemma map_all_total:
  "(\<And>x. x \<in> set xs \<Longrightarrow> \<exists>y. f x = Some y) \<Longrightarrow> \<exists>ys. map_all f xs = Some ys"
proof (induction xs)
  case Nil
  then show ?case by simp
next
  case (Cons x xs)
  from Cons.prems obtain y where "f x = Some y" by auto
  moreover from Cons obtain ys where "map_all f xs = Some ys" by auto
  ultimately show ?case by simp
qed

lemma map_all_length:
  "map_all f xs = Some ys \<Longrightarrow> length ys = length xs"
  by (induction xs arbitrary: ys) (auto split: option.splits)

subsection \<open>Optimizing twice\<close>

lemma remap_index_bound:
  assumes "remap_index vs (vertex_index_map vs []) i = Some j"
  shows "j < length (vertex_index_map vs [])"
proof -
  have "index_map_ok (vertex_index_map vs [])"
    by (rule vertex_index_map_ok) (simp add: index_map_ok_def)
  moreover from assms have "map_of (vertex_index_map vs []) (vs ! i) = Some j"
    by (simp add: remap_index_def split: if_splits)
  ultimately show ?thesis by (rule index_map_ok_bound)
qed

lemma remap_index_canonical:
  assumes "index_map_ok m" and "j < length m"
  shows "remap_index (map fst m) m j = Some j"
  using assms index_map_ok_nth [OF assms] by (simp add: remap_index_def)

lemma optimize_fixed_point:
  assumes "optimize md = Some md1"
  shows "optimize md1 = Some md1"
proof -
  define m where "m = vertex_index_map (vertices md) []"
  from assms obtain fs es where
    fs: "map_all (map_all (remap_index (vertices md) m)) (faces md) = Some fs" and
    es: "map_all (remap_edge (vertices md) m) (edges md) = Some es" and
    md1: "md1 = md\<lparr>vertices := map fst m,
                    faces := filter (\<lambda>f. 3 \<le> length (remdups f)) fs,
                    edges := filter (\<lambda>e. fst e \<noteq> snd e) es\<rparr>"
    by (auto simp: optimize_def Let_def m_def split: option.splits)
  have ok: "index_map_ok m"
    unfolding m_def by (rule vertex_index_map_ok) (simp add: index_map_ok_def)
  have m': "vertex_index_map (vertices md1) [] = m"
    using vertex_index_map_fixed [of "[]" m] ok by (simp add: md1)
  have idx: "remap_index (vertices md) m i = Some j \<Longrightarrow> j < length m" for i j
    unfolding m_def by (rule remap_index_bound)
  have face_bound: "i < length m" if "f \<in> set fs" and "i \<in> set f" for f i
  proof -
    from map_all_Some_set [OF fs that(1)] obtain f0 where
      "map_all (remap_index (vertices md) m) f0 = Some f" by auto
    from map_all_Some_set [OF this that(2)] obtain i0 where
      "remap_index (vertices md) m i0 = Some i" by auto
    then show ?thesis by (rule idx)
  qed
  have edge_bound: "fst e < length m \<and> snd e < length m" if "e \<in> set es" for e
  proof -
    from map_all_Some_set [OF es that] obtain e0 where
      "remap_edge (vertices md) m e0 = Some e" by auto
    then show ?thesis
      by (auto simp: remap_edge_def split: option.splits dest: idx)
  qed
  have face_id: "map_all (remap_index (map fst m) m) f = Some f" if "f \<in> set fs" for f
    using that by (intro map_all_id remap_index_canonical ok face_bound)
  have faces_id: "map_all (map_all (remap_index (map fst m) m))
      (filter (\<lambda>f. 3 \<le> length (remdups f)) fs) = Some (filter (\<lambda>f. 3 \<le> length (remdups f)) fs)"
    by (rule map_all_id) (simp add: face_id)
  have edge_id: "remap_edge (map fst m) m e = Some e" if "e \<in> set es" for e
    using edge_bound [OF that] by (simp add: remap_edge_def remap_index_canonical ok)
  have edges_id: "map_all (remap_edge (map fst m) m)
      (filter (\<lambda>e. fst e \<noteq> snd e) es) = Some (filter (\<lambda>e. fst e \<noteq> snd e) es)"
    by (rule map_all_id) (simp add: edge_id)
  have "optimize md1 = Some (md1\<lparr>vertices := map fst m,
      faces := filter (\<lambda>f. 3 \<le> length (remdups f)) (filter (\<lambda>f. 3 \<le> length (remdups f)) fs),
      edges := filter (\<lambda>e. fst e \<noteq> snd e) (filter (\<lambda>e. fst e \<noteq> snd e) es)\<rparr>)"
    using m' faces_id edges_id by (simp add: optimize_def md1)
  then show ?thesis by (simp add: md1)
qed

text \<open>
  A mesh whose faces and edges name vertices only is optimized without failure.
\<close>

lemma optimize_succeeds:
  assumes "\<And>f i. f \<in> set (faces md) \<Longrightarrow> i \<in> set f \<Longrightarrow> i < length (vertices md)"
      and "\<And>e. e \<in> set (edges md) \<Longrightarrow> fst e < length (vertices md) \<and> snd e < length (vertices md)"
  shows "\<exists>md1. optimize md = Some md1"
proof -
  define m where "m = vertex_index_map (vertices md) []"
  have idx: "\<exists>j. remap_index (vertices md) m i = Some j" if "i < length (vertices md)" for i
    using that vertex_index_map_total [of "vertices md ! i" "vertices md" "[]"]
    by (simp add: remap_index_def m_def)
  have "\<exists>f'. map_all (remap_index (vertices md) m) f = Some f'" if "f \<in> set (faces md)" for f
    using that by (intro map_all_total idx assms(1))
  then obtain fs where "map_all (map_all (remap_index (vertices md) m)) (faces md) = Some fs"
    using map_all_total [of "faces md" "map_all (remap_index (vertices md) m)"] by blast
  moreover have "\<exists>e'. remap_edge (vertices md) m e = Some e'" if "e \<in> set (edges md)" for e
  proof -
    from assms(2) [OF that] idx obtain a b where
      "remap_index (vertices md) m (fst e) = Some a" "remap_index (vertices md) m (snd e) = Some b"
      by blast
    then show ?thesis by (simp add: remap_edge_def)
  qed
  then obtain es where "map_all (remap_edge (vertices md) m) (edges md) = Some es"
    using map_all_total [of "edges md" "remap_edge (vertices md) m"] by blast
  ultimately show ?thesis
    by (simp add: optimize_def m_def [symmetric])
qed

text \<open>
  Claim C7. For every mesh, \<^verbatim>\<open>optimize()\<close> applied twice gives the vertices, faces and
  edges that \<^verbatim>\<open>optimize()\<close> applied once gives; where the first call fails (an index
  that names no vertex), so does the sequence of two.
\<close>

theorem optimize_idempotent:
  "optimize_twice md = optimize md"
  by (cases "optimize md") (simp_all add: optimize_twice_def optimize_fixed_point)

theorem optimize_idempotent_witness:
  "optimize \<lparr>vertices = [[0::int, 0, 0], [1, 0, 0], [0, 0, 0], [1, 0, 0], [2, 0, 0]],
             faces = [[0, 1, 2], [0, 1, 4], [4, 1, 3, 0]],
             edges = [(0, 2), (0, 1), (3, 4)]\<rparr> =
     Some \<lparr>vertices = [[0, 0, 0], [1, 0, 0], [2, 0, 0]],
           faces = [[0, 1, 2], [2, 1, 1, 0]],
           edges = [(0, 1), (1, 2)]\<rparr> \<and>
   optimize_twice \<lparr>vertices = [[0::int, 0, 0], [1, 0, 0], [0, 0, 0], [1, 0, 0], [2, 0, 0]],
             faces = [[0, 1, 2], [0, 1, 4], [4, 1, 3, 0]],
             edges = [(0, 2), (0, 1), (3, 4)]\<rparr> =
     Some \<lparr>vertices = [[0, 0, 0], [1, 0, 0], [2, 0, 0]],
           faces = [[0, 1, 2], [2, 1, 1, 0]],
           edges = [(0, 1), (1, 2)]\<rparr>"
proof -
  have "optimize \<lparr>vertices = [[0::int, 0, 0], [1, 0, 0], [0, 0, 0], [1, 0, 0], [2, 0, 0]],
             faces = [[0, 1, 2], [0, 1, 4], [4, 1, 3, 0]],
             edges = [(0, 2), (0, 1), (3, 4)]\<rparr> =
     Some \<lparr>vertices = [[0, 0, 0], [1, 0, 0], [2, 0, 0]],
           faces = [[0, 1, 2], [2, 1, 1, 0]],
           edges = [(0, 1), (1, 2)]\<rparr>"
    by code_simp
  then show ?thesis
    by (simp only: optimize_idempotent simp_thms)
qed

subsection \<open>Optimizing a mesh of faces over distinct positions\<close>

lemma remdups_snoc:
  "remdups (xs @ [v]) = remdups (filter (\<lambda>x. x \<noteq> v) xs) @ [v]"
  by (induction xs) auto

lemma first_occurrences_Cons:
  "rev (remdups (rev (v # vs))) = v # rev (remdups (rev (filter (\<lambda>x. x \<noteq> v) vs)))"
  by (simp add: remdups_snoc rev_filter)

lemma vertex_index_map_first_occurrences:
  "map fst (vertex_index_map vs m) =
     map fst m @ rev (remdups (rev (filter (\<lambda>v. v \<notin> fst ` set m) vs)))"
proof (induction vs arbitrary: m)
  case Nil
  then show ?case by simp
next
  case (Cons v vs)
  show ?case
  proof (cases "map_of m v")
    case None
    then have notin: "v \<notin> fst ` set m"
      by (simp add: map_of_eq_None_iff)
    have f: "filter (\<lambda>x. x \<notin> fst ` set (m @ [(v, length m)])) vs =
             filter (\<lambda>x. x \<noteq> v) (filter (\<lambda>x. x \<notin> fst ` set m) vs)"
      by (auto intro: filter_cong)
    have "map fst (vertex_index_map (v # vs) m) =
          map fst (vertex_index_map vs (m @ [(v, length m)]))"
      using None by simp
    also have "\<dots> = map fst (m @ [(v, length m)]) @
        rev (remdups (rev (filter (\<lambda>x. x \<notin> fst ` set (m @ [(v, length m)])) vs)))"
      by (rule Cons.IH)
    also have "\<dots> = map fst m @
        v # rev (remdups (rev (filter (\<lambda>x. x \<noteq> v) (filter (\<lambda>x. x \<notin> fst ` set m) vs))))"
      by (simp only: f) simp
    also have "\<dots> = map fst m @
        rev (remdups (rev (v # filter (\<lambda>x. x \<notin> fst ` set m) vs)))"
      by (simp only: first_occurrences_Cons)
    also have "v # filter (\<lambda>x. x \<notin> fst ` set m) vs =
        filter (\<lambda>x. x \<notin> fst ` set m) (v # vs)"
      using notin by simp
    finally show ?thesis .
  next
    case (Some i)
    then have "v \<in> fst ` set m"
      by (metis map_of_eq_None_iff option.distinct(1))
    with Cons.IH [of m] Some show ?thesis by simp
  qed
qed

lemma index_map_ok_inj:
  assumes "index_map_ok m" and "map_of m v = Some j" and "map_of m w = Some j"
  shows "v = w"
proof -
  from assms(2,3) have "(v, j) \<in> set m" "(w, j) \<in> set m"
    by (auto dest: map_of_SomeD)
  moreover from assms(1) have "distinct (map snd m)"
    by (simp add: index_map_ok_def)
  then have "inj_on snd (set m)"
    by (simp add: distinct_map)
  ultimately have "(v, j) = (w, j)"
    using inj_onD [of snd "set m" "(v, j)" "(w, j)"] by simp
  then show ?thesis by simp
qed

lemma index_map_ok_position:
  assumes "index_map_ok m" and "map_of m v = Some j"
  shows "map fst m ! j = v"
proof -
  from assms have "j < length m" by (rule index_map_ok_bound)
  with assms(1) have "map_of m (map fst m ! j) = Some j" by (rule index_map_ok_nth)
  from index_map_ok_inj [OF assms(1) this assms(2)] show ?thesis .
qed

lemma map_all_map:
  "(\<And>x. x \<in> set xs \<Longrightarrow> f x = Some (g x)) \<Longrightarrow> map_all f xs = Some (map g xs)"
  by (induction xs) simp_all

lemma optimize_faces_over_distinct_positions:
  assumes fa: "\<forall>f \<in> set (faces md). 3 \<le> length f \<and> (\<forall>i \<in> set f. i < length (vertices md)) \<and>
                   distinct (map (\<lambda>i. vertices md ! i) f)"
      and ea: "\<forall>e \<in> set (edges md). fst e < length (vertices md) \<and> snd e < length (vertices md)"
  shows "\<exists>md1 g. optimize md = Some md1 \<and>
           vertices md1 = rev (remdups (rev (vertices md))) \<and>
           length (vertices md1) = card (set (vertices md)) \<and>
           faces md1 = map (map g) (faces md) \<and>
           (\<forall>f \<in> set (faces md). distinct (map g f) \<and>
              (\<forall>i \<in> set f. g i < card (set (vertices md)) \<and>
                              vertices md1 ! g i = vertices md ! i))"
proof -
  from fa have rng: "\<And>f i. f \<in> set (faces md) \<Longrightarrow> i \<in> set f \<Longrightarrow> i < length (vertices md)"
    by blast
  from fa have quad: "\<And>f. f \<in> set (faces md) \<Longrightarrow>
      3 \<le> length f \<and> distinct (map (\<lambda>i. vertices md ! i) f)"
    by blast
  from ea have erng: "\<And>e. e \<in> set (edges md) \<Longrightarrow>
      fst e < length (vertices md) \<and> snd e < length (vertices md)"
    by blast
  define vs where "vs = vertices md"
  define m where "m = vertex_index_map vs []"
  define g where "g i = the (remap_index vs m i)" for i
  have ok: "index_map_ok m"
    unfolding m_def by (rule vertex_index_map_ok) (simp add: index_map_ok_def)
  have cs: "map fst m = rev (remdups (rev vs))"
    using vertex_index_map_first_occurrences [of vs "[]"] by (simp add: m_def)
  have len: "length m = card (set vs)"
  proof -
    have "length m = length (map fst m)" by simp
    also have "\<dots> = card (set vs)"
      unfolding cs by (simp add: length_remdups_card_conv)
    finally show ?thesis .
  qed
  have look: "map_of m (vs ! i) = Some (g i)" if "i < length vs" for i
  proof -
    from that have "vs ! i \<in> set vs" by simp
    from vertex_index_map_total [OF this, of "[]"] obtain j where "map_of m (vs ! i) = Some j"
      by (auto simp: m_def)
    with that show ?thesis by (simp add: g_def remap_index_def)
  qed
  have idx: "remap_index vs m i = Some (g i)" if "i < length vs" for i
    using that look [OF that] by (simp add: remap_index_def)
  have gb: "g i < card (set vs)" if "i < length vs" for i
    using index_map_ok_bound [OF ok look [OF that]] len by simp
  have gp: "map fst m ! g i = vs ! i" if "i < length vs" for i
    using index_map_ok_position [OF ok look [OF that]] .
  have ginj: "i = i'" if "f \<in> set (faces md)" "i \<in> set f" "i' \<in> set f" "g i = g i'" for f i i'
  proof -
    from that rng have b: "i < length vs" "i' < length vs" by (auto simp: vs_def)
    from look [OF b(1)] look [OF b(2)] that(4) have "vs ! i = vs ! i'"
      by (auto intro: index_map_ok_inj [OF ok])
    moreover from quad [OF that(1)] have "inj_on (\<lambda>i. vs ! i) (set f)"
      by (simp add: distinct_map vs_def)
    ultimately show ?thesis using that(2,3) by (auto dest: inj_onD)
  qed
  have dist: "distinct (map g f)" if "f \<in> set (faces md)" for f
  proof -
    from quad [OF that] have "distinct f" by (simp add: distinct_map)
    moreover have "inj_on g (set f)"
      by (rule inj_onI) (rule ginj [OF that])
    ultimately show ?thesis by (simp add: distinct_map)
  qed
  have face: "map_all (remap_index vs m) f = Some (map g f)" if "f \<in> set (faces md)" for f
    by (rule map_all_map) (rule idx, rule rng [OF that, folded vs_def])
  have fs: "map_all (map_all (remap_index vs m)) (faces md) = Some (map (map g) (faces md))"
    by (rule map_all_map) (rule face)
  have keep: "filter (\<lambda>f. 3 \<le> length (remdups f)) (map (map g) (faces md)) = map (map g) (faces md)"
  proof -
    have "3 \<le> length (remdups f')" if "f' \<in> set (map (map g) (faces md))" for f'
    proof -
      from that obtain f where f: "f \<in> set (faces md)" "f' = map g f" by auto
      from dist [OF f(1)] have "remdups (map g f) = map g f" by (rule distinct_remdups_id)
      then have "length (remdups f') = length f" by (simp only: f(2) length_map)
      with quad [OF f(1)] show ?thesis by simp
    qed
    then show ?thesis by (simp add: filter_True del: remdups.simps)
  qed
  have "\<exists>e'. remap_edge vs m e = Some e'" if "e \<in> set (edges md)" for e
    using erng [OF that] by (simp add: remap_edge_def idx vs_def [symmetric])
  then obtain es where es: "map_all (remap_edge vs m) (edges md) = Some es"
    using map_all_total [of "edges md" "remap_edge vs m"] by blast
  define md1 where "md1 = md\<lparr>vertices := map fst m, faces := map (map g) (faces md),
                              edges := filter (\<lambda>e. fst e \<noteq> snd e) es\<rparr>"
  have opt: "optimize md = Some md1"
    using fs es keep
    by (simp add: optimize_def md1_def vs_def [symmetric] m_def [symmetric] del: remdups.simps)
  have "vertices md1 = rev (remdups (rev (vertices md)))"
    by (simp add: md1_def cs vs_def)
  moreover have "length (vertices md1) = card (set (vertices md))"
    by (simp add: md1_def len vs_def [symmetric])
  moreover have "faces md1 = map (map g) (faces md)"
    by (simp add: md1_def)
  moreover have "\<forall>f \<in> set (faces md). distinct (map g f) \<and>
              (\<forall>i \<in> set f. g i < card (set (vertices md)) \<and>
                              vertices md1 ! g i = vertices md ! i)"
  proof (intro ballI conjI)
    fix f assume f: "f \<in> set (faces md)"
    show "distinct (map g f)" by (rule dist [OF f])
    fix i assume "i \<in> set f"
    with rng [OF f] have b: "i < length vs" by (simp add: vs_def)
    show "g i < card (set (vertices md))" using gb [OF b] by (simp add: vs_def)
    show "vertices md1 ! g i = vertices md ! i" using gp [OF b] by (simp add: md1_def vs_def)
  qed
  ultimately show ?thesis using opt by blast
qed


text \<open>
  Claim C6. For every mesh of 6 faces over 8 distinct positions, each face 4 indices
  that name 4 different positions (however often a position is stored: 24 vertices,
  each corner three times, in the scenario), \<^verbatim>\<open>optimize()\<close> succeeds and leaves exactly
  8 vertices, the distinct positions in the order of their first occurrence; it keeps
  all 6 faces; every face has 4 distinct indices, each below 8; and every face names
  after the remapping the positions it named before.
\<close>

theorem optimize_six_quads_over_eight_corners:
  assumes "card (set (vertices md)) = 8"
      and "length (faces md) = 6"
      and "\<forall>f \<in> set (faces md). length f = 4 \<and> (\<forall>i \<in> set f. i < length (vertices md)) \<and>
              distinct (map (\<lambda>i. vertices md ! i) f)"
      and "\<forall>e \<in> set (edges md). fst e < length (vertices md) \<and> snd e < length (vertices md)"
  shows "\<exists>md1. optimize md = Some md1 \<and>
           vertices md1 = rev (remdups (rev (vertices md))) \<and>
           length (vertices md1) = 8 \<and>
           length (faces md1) = 6 \<and>
           (\<forall>f \<in> set (faces md1). length f = 4 \<and> distinct f \<and> (\<forall>i \<in> set f. i < 8)) \<and>
           list_all2 (\<lambda>f f'. map (\<lambda>i. vertices md1 ! i) f' = map (\<lambda>i. vertices md ! i) f)
             (faces md) (faces md1)"
proof -
  from assms(3) have fa: "\<forall>f \<in> set (faces md). 3 \<le> length f \<and>
      (\<forall>i \<in> set f. i < length (vertices md)) \<and> distinct (map (\<lambda>i. vertices md ! i) f)"
    by auto
  from optimize_faces_over_distinct_positions [OF fa assms(4)]
  obtain md1 g where
    opt: "optimize md = Some md1" and
    vs: "vertices md1 = rev (remdups (rev (vertices md)))" and
    n: "length (vertices md1) = card (set (vertices md))" and
    fs: "faces md1 = map (map g) (faces md)" and
    g: "\<forall>f \<in> set (faces md). distinct (map g f) \<and>
          (\<forall>i \<in> set f. g i < card (set (vertices md)) \<and> vertices md1 ! g i = vertices md ! i)"
    by blast
  have "\<forall>f \<in> set (faces md1). length f = 4 \<and> distinct f \<and> (\<forall>i \<in> set f. i < 8)"
    using assms(1,3) g by (auto simp: fs)
  moreover have "list_all2 (\<lambda>f f'. map (\<lambda>i. vertices md1 ! i) f' = map (\<lambda>i. vertices md ! i) f)
      (faces md) (faces md1)"
    using g by (simp add: fs list_all2_map2 list_all2_same)
  ultimately show ?thesis
    using opt vs n fs assms(1,2) by simp
qed

theorem optimize_six_quads_over_eight_corners_witness:
  "card (set (vertices cube_mesh)) = 8 \<and> length (vertices cube_mesh) = 24 \<and>
   list_all (\<lambda>c. count_list (vertices cube_mesh) c = 3) cube_vertices \<and>
   length (faces cube_mesh) = 6 \<and>
   (\<exists>md1. optimize cube_mesh = Some md1 \<and> vertices md1 = cube_vertices \<and>
      length (vertices md1) = 8 \<and> length (faces md1) = 6 \<and>
      (\<forall>f \<in> set (faces md1). length f = 4 \<and> distinct f \<and> (\<forall>i \<in> set f. i < 8)))"
proof -
  have h1: "card (set (vertices cube_mesh)) = 8"
    by code_simp
  have h2: "length (faces cube_mesh) = 6"
    by (simp add: cube_mesh_def)
  have h3: "\<forall>f \<in> set (faces cube_mesh). length f = 4 \<and>
      (\<forall>i \<in> set f. i < length (vertices cube_mesh)) \<and>
      distinct (map (\<lambda>i. vertices cube_mesh ! i) f)"
    by code_simp
  have h4: "\<forall>e \<in> set (edges cube_mesh).
      fst e < length (vertices cube_mesh) \<and> snd e < length (vertices cube_mesh)"
    by (simp add: cube_mesh_def)
  have n: "length (vertices cube_mesh) = 24"
    by (simp add: cube_mesh_def cube_faces_def)
  have c: "list_all (\<lambda>c. count_list (vertices cube_mesh) c = 3) cube_vertices"
    by code_simp
  have first: "rev (remdups (rev (vertices cube_mesh))) = cube_vertices"
    by code_simp
  from optimize_six_quads_over_eight_corners [OF h1 h2 h3 h4] first
  have "\<exists>md1. optimize cube_mesh = Some md1 \<and> vertices md1 = cube_vertices \<and>
      length (vertices md1) = 8 \<and> length (faces md1) = 6 \<and>
      (\<forall>f \<in> set (faces md1). length f = 4 \<and> distinct f \<and> (\<forall>i \<in> set f. i < 8))"
    by auto
  with h1 n c h2 show ?thesis by (intro conjI)
qed

text \<open>
  The mesh of \<^verbatim>\<open>test_optimize\<close> evaluated: the optimized mesh has the eight corners as
  vertices and the six faces of the cube as faces, as the test asserts by their number.
\<close>

lemma optimize_cube_mesh_value:
  "optimize cube_mesh = Some \<lparr>vertices = cube_vertices, faces = cube_faces, edges = []\<rparr>"
  by code_simp

end
